theory Spec2Isabelle
  imports Main "HOL-Library.AList"
begin

section \<open>Data model\<close>

text \<open>
  The script \<^verbatim>\<open>check_add_tag.py\<close> reads and writes tags through a tagging client of the
  cloud SDK. A Python \<^verbatim>\<open>dict\<close> from strings to strings is an association list that keeps
  insertion order: storing under a new key appends the entry, storing under a key already
  present replaces the value in place (\<open>AList.update\<close> computes exactly that).
\<close>

type_synonym dict = "(string \<times> string) list"

definition dict_set :: "string \<Rightarrow> string \<Rightarrow> dict \<Rightarrow> dict" where
  \<comment> \<open>\<^verbatim>\<open>d[k] = v\<close>\<close>
  "dict_set k v d = AList.update k v d"

definition dict_has :: "dict \<Rightarrow> string \<Rightarrow> bool" where
  \<comment> \<open>\<^verbatim>\<open>k in d\<close>\<close>
  "dict_has d k = (map_of d k \<noteq> None)"

definition dict_keys :: "dict \<Rightarrow> string set" where
  "dict_keys d = fst ` set d"

definition REQUIRED_TAGS :: dict where
  "REQUIRED_TAGS = [(''Environment'', ''Production''), (''Owner'', ''CloudEng'')]"

definition TAGGABLE_SERVICES :: "string list" where
  "TAGGABLE_SERVICES =
     [''ec2'', ''s3'', ''rds'', ''lambda'', ''dynamodb'', ''sns'', ''sqs'', ''elb'',
      ''autoscaling'', ''cloudwatch'', ''redshift'', ''cloudfront'', ''eks'', ''ecr'',
      ''kinesis'']"

text \<open>
  The shapes of the tagging API's answers, as the source reads them: a field the source
  indexes directly (\<^verbatim>\<open>tag["Key"]\<close>, \<^verbatim>\<open>tag["Value"]\<close>, \<^verbatim>\<open>resource["ResourceARN"]\<close>) is a
  field of the record; a field it reads with a default (\<^verbatim>\<open>.get("Tags", [])\<close>,
  \<^verbatim>\<open>.get("ResourceTagMappingList", [])\<close>) or tests with \<^verbatim>\<open>in\<close> is optional.
\<close>

record tag =
  Key :: string
  Value :: string

record resource_tag_mapping =
  ResourceARN :: string
  Tags :: "tag list option"

record response =
  ResourceTagMappingList :: "resource_tag_mapping list option"

text \<open>
  Exceptions: the two classes the source names in its handlers, and every other subclass
  of \<^verbatim>\<open>Exception\<close> with its message.
\<close>

datatype exn = ProfileNotFound | NoCredentialsError | OtherError string

section \<open>The SDK as a parameter\<close>

text \<open>
  The remote service and the local profile store are not part of the source. They are
  parameters of the model: records of operations over an arbitrary world \<open>'w\<close>, each of
  which returns a new world and may raise. Nothing is assumed about them, so a theorem
  over all clients holds for every behaviour of the remote side, every failure included.

  \<^item> \<open>paginate n\<close> is \<^verbatim>\<open>client.get_paginator("get_resources").paginate(ResourcesPerPage=n)\<close>
    iterated to its end: the pages that were yielded, then the exception that stopped the
    iteration, if any (a failure of \<^verbatim>\<open>get_paginator\<close> itself is no page and an exception).
  \<^item> \<open>get_resources arns\<close> is \<^verbatim>\<open>client.get_resources(ResourceARNList=arns)\<close>.
  \<^item> \<open>tag_resources arns tags\<close> is \<^verbatim>\<open>client.tag_resources(ResourceARNList=arns, Tags=tags)\<close>.
\<close>

record 'w client =
  paginate :: "nat \<Rightarrow> 'w \<Rightarrow> (response list \<times> exn option) \<times> 'w"
  get_resources :: "string list \<Rightarrow> 'w \<Rightarrow> (exn + response) \<times> 'w"
  tag_resources :: "string list \<Rightarrow> dict \<Rightarrow> 'w \<Rightarrow> (exn + unit) \<times> 'w"

record 'w session =
  client :: "string \<Rightarrow> 'w \<Rightarrow> (exn + 'w client) \<times> 'w"

record 'w sdk =
  available_profiles :: "'w \<Rightarrow> (exn + string list) \<times> 'w"
  Session :: "string \<Rightarrow> 'w \<Rightarrow> (exn + 'w session) \<times> 'w"

section \<open>Program state, output and exceptions\<close>

text \<open>
  The requests sent to the remote API, in the order they are issued, and the lines printed
  to standard output (one constructor per \<^verbatim>\<open>print\<close> statement of the source, with the values
  its format string interpolates).
\<close>

datatype call =
    Paginate nat
  | GetResources "string list"
  | TagResources "string list" dict

datatype line =
    ErrorFetching string exn
  | AddedMissing "tag list" string
  | AlreadyTagged string
  | ErrorProcessing string exn
  | Switching string
  | Checking string
  | ProfileNotFoundLine string
  | NoCredentialsLine string
  | UnexpectedError string exn
  | NoProfiles

record 'w state =
  world :: 'w
  calls :: "call list"
  out :: "line list"

type_synonym ('w, 'a) prog = "'w state \<Rightarrow> (exn + 'a) \<times> 'w state"

definition pure_val :: "'a \<Rightarrow> ('w, 'a) prog" where
  "pure_val x = (\<lambda>s. (Inr x, s))"

definition and_then :: "('w, 'a) prog \<Rightarrow> ('a \<Rightarrow> ('w, 'b) prog) \<Rightarrow> ('w, 'b) prog" where
  \<comment> \<open>sequencing: an exception of the first statement skips the rest\<close>
  "and_then m f = (\<lambda>s. case m s of (Inl e, s') \<Rightarrow> (Inl e, s') | (Inr x, s') \<Rightarrow> f x s')"

definition try_except :: "('w, 'a) prog \<Rightarrow> (exn \<Rightarrow> ('w, 'a) prog) \<Rightarrow> ('w, 'a) prog" where
  \<comment> \<open>\<^verbatim>\<open>try: body except Exception as e: handler\<close>\<close>
  "try_except body handler =
     (\<lambda>s. case body s of (Inl e, s') \<Rightarrow> handler e s' | (Inr x, s') \<Rightarrow> (Inr x, s'))"

definition print_line :: "line \<Rightarrow> ('w, unit) prog" where
  "print_line l = (\<lambda>s. (Inr (), s\<lparr>out := out s @ [l]\<rparr>))"

definition local_op :: "('w \<Rightarrow> (exn + 'a) \<times> 'w) \<Rightarrow> ('w, 'a) prog" where
  \<comment> \<open>an SDK operation that sends no request\<close>
  "local_op f = (\<lambda>s. case f (world s) of (r, w') \<Rightarrow> (r, s\<lparr>world := w'\<rparr>))"

definition request :: "call \<Rightarrow> ('w \<Rightarrow> (exn + 'a) \<times> 'w) \<Rightarrow> ('w, 'a) prog" where
  \<comment> \<open>an SDK operation that sends a request: the request is recorded, whatever its outcome\<close>
  "request c f =
     (\<lambda>s. case f (world s) of (r, w') \<Rightarrow> (r, s\<lparr>world := w', calls := calls s @ [c]\<rparr>))"

primrec for_each :: "'a list \<Rightarrow> ('a \<Rightarrow> ('w, unit) prog) \<Rightarrow> ('w, unit) prog" where
  \<comment> \<open>\<^verbatim>\<open>for x in xs: body\<close>\<close>
  "for_each [] body = pure_val ()"
| "for_each (x # xs) body = and_then (body x) (\<lambda>_. for_each xs body)"

section \<open>The functions of the script\<close>

definition get_aws_profiles :: "'w sdk \<Rightarrow> ('w, string list) prog" where
  "get_aws_profiles sdk = local_op (available_profiles sdk)"

definition page_items :: "response \<Rightarrow> resource_tag_mapping list" where
  \<comment> \<open>\<^verbatim>\<open>page.get("ResourceTagMappingList", [])\<close>\<close>
  "page_items page = (case ResourceTagMappingList page of None \<Rightarrow> [] | Some ms \<Rightarrow> ms)"

definition iterate_pages :: "'w client \<Rightarrow> nat \<Rightarrow> ('w, resource_tag_mapping list) prog" where
  \<comment> \<open>lines 22 to 28: every yielded page extends \<^verbatim>\<open>resources\<close>; an exception of the iteration
      leaves the \<^verbatim>\<open>try\<close> block and the list collected so far is dropped\<close>
  "iterate_pages cl n =
     (\<lambda>s. case paginate cl n (world s) of
             ((pages, err), w') \<Rightarrow>
               (let resources = fold (\<lambda>page resources. resources @ page_items page) pages [];
                    s' = s\<lparr>world := w', calls := calls s @ [Paginate n]\<rparr>
                in case err of None \<Rightarrow> (Inr resources, s') | Some e \<Rightarrow> (Inl e, s')))"

definition get_resources_with_tags ::
  "'w client \<Rightarrow> string \<Rightarrow> ('w, resource_tag_mapping list) prog" where
  "get_resources_with_tags cl service_name =
     try_except (iterate_pages cl 50)
       (\<lambda>e. and_then (print_line (ErrorFetching service_name e)) (\<lambda>_. pure_val []))"

definition existing_tags_of :: "response \<Rightarrow> dict" where
  \<comment> \<open>lines 37 to 42\<close>
  "existing_tags_of tag_response =
     (case ResourceTagMappingList tag_response of
        None \<Rightarrow> []
      | Some ms \<Rightarrow>
          fold (\<lambda>tag_mapping existing_tags.
                  fold (\<lambda>tag. dict_set (Key tag) (Value tag))
                    (case Tags tag_mapping of None \<Rightarrow> [] | Some ts \<Rightarrow> ts) existing_tags)
            ms [])"

definition missing_tags_of :: "dict \<Rightarrow> tag list" where
  \<comment> \<open>lines 45 to 49\<close>
  "missing_tags_of existing_tags =
     map (\<lambda>(key, val). \<lparr>Key = key, Value = val\<rparr>)
       (filter (\<lambda>(key, val). \<not> dict_has existing_tags key) REQUIRED_TAGS)"

definition tags_arg :: "tag list \<Rightarrow> dict" where
  \<comment> \<open>line 53: \<^verbatim>\<open>{t["Key"]: t["Value"] for t in missing_tags}\<close>\<close>
  "tags_arg missing_tags = fold (\<lambda>t. dict_set (Key t) (Value t)) missing_tags []"

definition check_and_add_tags_try :: "'w client \<Rightarrow> string \<Rightarrow> ('w, unit) prog" where
  \<comment> \<open>lines 36 to 56: the body of the \<^verbatim>\<open>try\<close> block\<close>
  "check_and_add_tags_try cl resource_arn =
     and_then (request (GetResources [resource_arn]) (get_resources cl [resource_arn]))
       (\<lambda>tag_response.
          let existing_tags = existing_tags_of tag_response;
              missing_tags = missing_tags_of existing_tags
          in if missing_tags \<noteq> [] then
               and_then
                 (request (TagResources [resource_arn] (tags_arg missing_tags))
                    (tag_resources cl [resource_arn] (tags_arg missing_tags)))
                 (\<lambda>_. print_line (AddedMissing missing_tags resource_arn))
             else print_line (AlreadyTagged resource_arn))"

definition check_and_add_tags :: "'w client \<Rightarrow> string \<Rightarrow> ('w, unit) prog" where
  "check_and_add_tags cl resource_arn =
     try_except (check_and_add_tags_try cl resource_arn)
       (\<lambda>e. print_line (ErrorProcessing resource_arn e))"

definition resources_loop :: "'w client \<Rightarrow> resource_tag_mapping list \<Rightarrow> ('w, unit) prog" where
  \<comment> \<open>lines 71 to 73\<close>
  "resources_loop tag_client resources =
     for_each resources (\<lambda>resource. check_and_add_tags tag_client (ResourceARN resource))"

definition service_pass :: "'w client \<Rightarrow> string \<Rightarrow> ('w, unit) prog" where
  \<comment> \<open>lines 69 to 73: one iteration of the loop over the services\<close>
  "service_pass tag_client service =
     and_then (print_line (Checking service))
       (\<lambda>_. and_then (get_resources_with_tags tag_client service)
               (\<lambda>resources. resources_loop tag_client resources))"

definition services_loop :: "'w client \<Rightarrow> string list \<Rightarrow> ('w, unit) prog" where
  \<comment> \<open>lines 68 to 73, for the services still to visit\<close>
  "services_loop tag_client services = for_each services (service_pass tag_client)"

definition process_aws_profile_try :: "'w sdk \<Rightarrow> string \<Rightarrow> ('w, unit) prog" where
  \<comment> \<open>lines 64 to 73: the body of the \<^verbatim>\<open>try\<close> block\<close>
  "process_aws_profile_try sdk profile_name =
     and_then (print_line (Switching profile_name))
       (\<lambda>_. and_then (local_op (Session sdk profile_name))
               (\<lambda>session.
                  and_then (local_op (client session ''resourcegroupstaggingapi''))
                    (\<lambda>tag_client. services_loop tag_client TAGGABLE_SERVICES)))"

definition profile_handler :: "string \<Rightarrow> exn \<Rightarrow> line" where
  \<comment> \<open>lines 75 to 80: the line each \<^verbatim>\<open>except\<close> clause prints, first matching clause first\<close>
  "profile_handler profile_name e =
     (case e of
        ProfileNotFound \<Rightarrow> ProfileNotFoundLine profile_name
      | NoCredentialsError \<Rightarrow> NoCredentialsLine profile_name
      | OtherError msg \<Rightarrow> UnexpectedError profile_name e)"

definition process_aws_profile :: "'w sdk \<Rightarrow> string \<Rightarrow> ('w, unit) prog" where
  "process_aws_profile sdk profile_name =
     try_except (process_aws_profile_try sdk profile_name)
       (\<lambda>e. print_line (profile_handler profile_name e))"

definition profiles_loop :: "'w sdk \<Rightarrow> string list \<Rightarrow> ('w, unit) prog" where
  \<comment> \<open>lines 85 to 89\<close>
  "profiles_loop sdk profiles =
     (if profiles = [] then print_line NoProfiles
      else for_each profiles (\<lambda>profile. process_aws_profile sdk profile))"

definition main :: "'w sdk \<Rightarrow> ('w, unit) prog" where
  \<comment> \<open>lines 82 to 89\<close>
  "main sdk = and_then (get_aws_profiles sdk) (\<lambda>profiles. profiles_loop sdk profiles)"

section \<open>Observing a run\<close>

text \<open>The requests a program adds to the trace when run from a state, and what a trace or an output holds.\<close>

definition issued :: "('w, 'a) prog \<Rightarrow> 'w state \<Rightarrow> call list" where
  "issued p s = drop (length (calls s)) (calls (snd (p s)))"

definition reads_of :: "call list \<Rightarrow> string list list" where
  "reads_of cs = concat (map (\<lambda>c. case c of GetResources arns \<Rightarrow> [arns] | _ \<Rightarrow> []) cs)"

definition writes_of :: "call list \<Rightarrow> (string list \<times> dict) list" where
  "writes_of cs =
     concat (map (\<lambda>c. case c of TagResources arns tags \<Rightarrow> [(arns, tags)] | _ \<Rightarrow> []) cs)"

definition listings_of :: "call list \<Rightarrow> nat list" where
  "listings_of cs = concat (map (\<lambda>c. case c of Paginate n \<Rightarrow> [n] | _ \<Rightarrow> []) cs)"

definition checked_services :: "line list \<Rightarrow> string list" where
  "checked_services ls = concat (map (\<lambda>l. case l of Checking service \<Rightarrow> [service] | _ \<Rightarrow> []) ls)"

definition switched_profiles :: "line list \<Rightarrow> string list" where
  "switched_profiles ls =
     concat (map (\<lambda>l. case l of Switching profile \<Rightarrow> [profile] | _ \<Rightarrow> []) ls)"

definition apply_tags :: "dict \<Rightarrow> dict \<Rightarrow> dict" where
  \<comment> \<open>Modelled from the spec: the tag-write endpoint of the remote API, an external
      collaborator that "applies a mapping of key to value to a given resource identifier":
      each written entry is stored in the resource's tags.\<close>
  "apply_tags tags current = fold (\<lambda>(k, v). dict_set k v) tags current"

definition tags_after :: "string \<Rightarrow> dict \<Rightarrow> call list \<Rightarrow> dict" where
  \<comment> \<open>the tags of resource \<open>arn\<close> once the write requests of a trace are applied to \<open>prior\<close>\<close>
  "tags_after arn prior cs =
     fold (\<lambda>c current. case c of
                          TagResources arns tags \<Rightarrow>
                            if arn \<in> set arns then apply_tags tags current else current
                        | _ \<Rightarrow> current) cs prior"

section \<open>An in-memory account, for running the model on concrete inputs\<close>

record remote =
  inventory :: "(string \<times> dict) list"
  broken_reads :: "string list"
  broken_writes :: "string list"
  broken_listings :: nat
  profile_store :: "string list"
  no_credentials :: "string list"

definition describe :: "string \<times> dict \<Rightarrow> resource_tag_mapping" where
  "describe r =
     \<lparr>ResourceARN = fst r, Tags = Some (map (\<lambda>(k, v). \<lparr>Key = k, Value = v\<rparr>) (snd r))\<rparr>"

definition demo_client :: "remote client" where
  "demo_client =
     \<lparr>paginate = (\<lambda>n w.
        if 0 < broken_listings w
        then (([], Some (OtherError ''Throttling'')), w\<lparr>broken_listings := broken_listings w - 1\<rparr>)
        else (([\<lparr>ResourceTagMappingList = Some (map describe (inventory w))\<rparr>], None), w)),
      get_resources = (\<lambda>arns w.
        if set arns \<inter> set (broken_reads w) \<noteq> {}
        then (Inl (OtherError ''AccessDenied''), w)
        else (Inr \<lparr>ResourceTagMappingList =
                     Some (map describe (filter (\<lambda>r. fst r \<in> set arns) (inventory w)))\<rparr>, w)),
      tag_resources = (\<lambda>arns tags w.
        if set arns \<inter> set (broken_writes w) \<noteq> {}
        then (Inl (OtherError ''InternalServiceException''), w)
        else (Inr (),
              w\<lparr>inventory :=
                  map (\<lambda>r. if fst r \<in> set arns then (fst r, apply_tags tags (snd r)) else r)
                    (inventory w)\<rparr>))\<rparr>"

definition demo_sdk :: "remote sdk" where
  "demo_sdk =
     \<lparr>available_profiles = (\<lambda>w. (Inr (profile_store w), w)),
      Session = (\<lambda>profile w.
        if profile \<in> set (profile_store w)
        then (Inr \<lparr>client = (\<lambda>service w'.
                      if profile \<in> set (no_credentials w') then (Inl NoCredentialsError, w')
                      else (Inr demo_client, w'))\<rparr>, w)
        else (Inl ProfileNotFound, w))\<rparr>"

definition account :: "(string \<times> dict) list \<Rightarrow> remote" where
  \<comment> \<open>an account with the given resources, one profile and no fault\<close>
  "account rs =
     \<lparr>inventory = rs, broken_reads = [], broken_writes = [], broken_listings = 0,
      profile_store = [''default''], no_credentials = []\<rparr>"

definition start :: "'w \<Rightarrow> 'w state" where
  "start w = \<lparr>world = w, calls = [], out = []\<rparr>"

definition logs_bucket :: string where
  "logs_bucket = ''arn:aws:s3:::logs''"

definition web_server :: string where
  "web_server = ''arn:aws:ec2:::i-1''"

definition faulty_account :: remote where
  \<comment> \<open>a bucket whose tag read fails, a server whose tag write fails, a first listing that
      fails, and a profile without credentials\<close>
  "faulty_account =
     \<lparr>inventory = [(logs_bucket, []), (web_server, [])],
      broken_reads = [logs_bucket], broken_writes = [web_server], broken_listings = 1,
      profile_store = [''audit'', ''default''], no_credentials = [''audit'']\<rparr>"

definition read_answer :: "string \<Rightarrow> dict \<Rightarrow> response" where
  \<comment> \<open>what \<open>demo_client\<close> answers to a tag read of a resource with the given tags\<close>
  "read_answer arn tags = \<lparr>ResourceTagMappingList = Some [describe (arn, tags)]\<rparr>"

section \<open>Dictionaries and the missing tags\<close>

lemma dict_has_keys: "dict_has d k = (k \<in> dict_keys d)"
  by (simp add: dict_has_def dict_keys_def map_of_eq_None_iff)

lemma dict_set_fresh: "k \<notin> fst ` set d \<Longrightarrow> dict_set k v d = d @ [(k, v)]"
  by (induction d) (auto simp: dict_set_def)

lemma fold_dict_set_fresh:
  "distinct (map fst xs) \<Longrightarrow> fst ` set xs \<inter> fst ` set acc = {} \<Longrightarrow>
   fold (\<lambda>t. dict_set (Key t) (Value t)) (map (\<lambda>(k, v). \<lparr>Key = k, Value = v\<rparr>) xs) acc = acc @ xs"
proof (induction xs arbitrary: acc)
  case Nil
  then show ?case by simp
next
  case (Cons x xs)
  obtain k v where x: "x = (k, v)" by (cases x)
  from Cons.prems have fresh: "k \<notin> fst ` set acc" by (auto simp: x)
  from Cons.prems have "distinct (map fst xs)"
    and "fst ` set xs \<inter> fst ` set (acc @ [(k, v)]) = {}"
    by (auto simp: x)
  then have "fold (\<lambda>t. dict_set (Key t) (Value t)) (map (\<lambda>(k, v). \<lparr>Key = k, Value = v\<rparr>) xs)
               (acc @ [(k, v)]) = (acc @ [(k, v)]) @ xs"
    by (rule Cons.IH)
  then show ?case by (simp add: x dict_set_fresh [OF fresh])
qed

lemma distinct_REQUIRED_TAGS: "distinct (map fst REQUIRED_TAGS)"
  by (simp add: REQUIRED_TAGS_def)

lemma tags_arg_missing:
  "tags_arg (missing_tags_of T) = filter (\<lambda>(key, val). \<not> dict_has T key) REQUIRED_TAGS"
proof -
  have "distinct (map fst (filter (\<lambda>(key, val). \<not> dict_has T key) REQUIRED_TAGS))"
    by (rule distinct_map_filter) (rule distinct_REQUIRED_TAGS)
  then show ?thesis
    using fold_dict_set_fresh [of "filter (\<lambda>(key, val). \<not> dict_has T key) REQUIRED_TAGS" "[]"]
    by (simp add: tags_arg_def missing_tags_of_def)
qed

lemma missing_tags_empty: "(missing_tags_of T = []) = (dict_keys REQUIRED_TAGS \<subseteq> dict_keys T)"
  by (force simp: missing_tags_of_def filter_empty_conv dict_has_keys dict_keys_def)

lemma keys_tags_arg_missing:
  "dict_keys (tags_arg (missing_tags_of T)) = dict_keys REQUIRED_TAGS - dict_keys T"
  by (auto simp: tags_arg_missing dict_keys_def dict_has_keys image_iff)

lemma distinct_tags_arg_missing: "distinct (map fst (tags_arg (missing_tags_of T)))"
  unfolding tags_arg_missing by (rule distinct_map_filter) (rule distinct_REQUIRED_TAGS)

lemma map_of_filter_keys:
  "map_of (filter (\<lambda>(key, val). P key) xs) k = (if P k then map_of xs k else None)"
  by (induction xs) auto

lemma map_of_tags_arg_missing:
  "map_of (tags_arg (missing_tags_of T)) k = (if dict_has T k then None else map_of REQUIRED_TAGS k)"
  by (simp add: tags_arg_missing map_of_filter_keys)

section \<open>Single calls, the resource loop and the listing\<close>

lemma check_read_raises:
  assumes "get_resources cl [arn] (world s) = (Inl e, w')"
  shows "check_and_add_tags cl arn s =
           (Inr (), s\<lparr>world := w', calls := calls s @ [GetResources [arn]],
                       out := out s @ [ErrorProcessing arn e]\<rparr>)"
  using assms
  by (simp add: check_and_add_tags_def check_and_add_tags_try_def try_except_def and_then_def
      request_def print_line_def)

lemma check_nothing_missing:
  assumes "get_resources cl [arn] (world s) = (Inr resp, w')"
    and "missing_tags_of (existing_tags_of resp) = []"
  shows "check_and_add_tags cl arn s =
           (Inr (), s\<lparr>world := w', calls := calls s @ [GetResources [arn]],
                       out := out s @ [AlreadyTagged arn]\<rparr>)"
  using assms
  by (simp add: check_and_add_tags_def check_and_add_tags_try_def try_except_def and_then_def
      request_def print_line_def)

lemma check_write:
  assumes "get_resources cl [arn] (world s) = (Inr resp, w')"
    and "missing_tags_of (existing_tags_of resp) = missing" and "missing \<noteq> []"
    and "tag_resources cl [arn] (tags_arg missing) w' = (r, w'')"
  shows "check_and_add_tags cl arn s =
           (Inr (), s\<lparr>world := w'',
                       calls := calls s @ [GetResources [arn], TagResources [arn] (tags_arg missing)],
                       out := out s @ [case r of Inl e \<Rightarrow> ErrorProcessing arn e
                                       | Inr _ \<Rightarrow> AddedMissing missing arn]\<rparr>)"
  using assms
  by (cases r)
    (simp_all add: check_and_add_tags_def check_and_add_tags_try_def try_except_def and_then_def
      request_def print_line_def)

lemma issued_missing:
  assumes "get_resources cl [arn] (world s) = (Inr resp, w')"
    and "missing_tags_of (existing_tags_of resp) \<noteq> []"
  shows "issued (check_and_add_tags cl arn) s =
           [GetResources [arn],
            TagResources [arn] (tags_arg (missing_tags_of (existing_tags_of resp)))]"
proof -
  obtain r w'' where
    "tag_resources cl [arn] (tags_arg (missing_tags_of (existing_tags_of resp))) w' = (r, w'')"
    by (cases "tag_resources cl [arn] (tags_arg (missing_tags_of (existing_tags_of resp))) w'")
  from check_write [OF assms(1) refl assms(2) this] show ?thesis
    by (simp add: issued_def)
qed

lemma issued_nothing_missing:
  assumes "get_resources cl [arn] (world s) = (Inr resp, w')"
    and "missing_tags_of (existing_tags_of resp) = []"
  shows "issued (check_and_add_tags cl arn) s = [GetResources [arn]]"
  using check_nothing_missing [OF assms] by (simp add: issued_def)

lemma check_cases [case_names read_raises complete written]:
  fixes cl :: "'w client"
  obtains e w' where "get_resources cl [arn] (world s) = (Inl e, w')"
      and "check_and_add_tags cl arn s =
             (Inr (), s\<lparr>world := w', calls := calls s @ [GetResources [arn]],
                         out := out s @ [ErrorProcessing arn e]\<rparr>)"
  | resp w' where "get_resources cl [arn] (world s) = (Inr resp, w')"
      and "missing_tags_of (existing_tags_of resp) = []"
      and "check_and_add_tags cl arn s =
             (Inr (), s\<lparr>world := w', calls := calls s @ [GetResources [arn]],
                         out := out s @ [AlreadyTagged arn]\<rparr>)"
  | resp w' r w'' where "get_resources cl [arn] (world s) = (Inr resp, w')"
      and "missing_tags_of (existing_tags_of resp) \<noteq> []"
      and "tag_resources cl [arn] (tags_arg (missing_tags_of (existing_tags_of resp))) w' = (r, w'')"
      and "check_and_add_tags cl arn s =
             (Inr (), s\<lparr>world := w'',
                calls := calls s @ [GetResources [arn],
                  TagResources [arn] (tags_arg (missing_tags_of (existing_tags_of resp)))],
                out := out s @ [case r of Inl e \<Rightarrow> ErrorProcessing arn e
                                | Inr _ \<Rightarrow> AddedMissing (missing_tags_of (existing_tags_of resp)) arn]\<rparr>)"
proof (cases "get_resources cl [arn] (world s)")
  case (Pair res w')
  show thesis
  proof (cases res)
    case (Inl e)
    with Pair have "get_resources cl [arn] (world s) = (Inl e, w')" by simp
    from this check_read_raises [OF this] show thesis by (rule that(1))
  next
    case (Inr resp)
    with Pair have read: "get_resources cl [arn] (world s) = (Inr resp, w')" by simp
    show thesis
    proof (cases "missing_tags_of (existing_tags_of resp) = []")
      case True
      from read True check_nothing_missing [OF read True] show thesis by (rule that(2))
    next
      case False
      obtain r w'' where
        wr: "tag_resources cl [arn] (tags_arg (missing_tags_of (existing_tags_of resp))) w' = (r, w'')"
        by (cases "tag_resources cl [arn] (tags_arg (missing_tags_of (existing_tags_of resp))) w'")
      from read False wr check_write [OF read refl False wr] show thesis by (rule that(3))
    qed
  qed
qed

lemma reads_of_append: "reads_of (xs @ ys) = reads_of xs @ reads_of ys"
  by (simp add: reads_of_def)

lemma listings_of_append: "listings_of (xs @ ys) = listings_of xs @ listings_of ys"
  by (simp add: listings_of_def)

lemma checked_services_append:
  "checked_services (xs @ ys) = checked_services xs @ checked_services ys"
  by (simp add: checked_services_def)

lemma switched_profiles_append:
  "switched_profiles (xs @ ys) = switched_profiles xs @ switched_profiles ys"
  by (simp add: switched_profiles_def)

lemma check_returns: "fst (check_and_add_tags cl arn s) = Inr ()"
  by (cases rule: check_cases [of cl arn s]) simp_all

lemma check_reads:
  "reads_of (calls (snd (check_and_add_tags cl arn s))) = reads_of (calls s) @ [[arn]]"
  by (cases rule: check_cases [of cl arn s]) (simp_all add: reads_of_append, simp_all add: reads_of_def)

lemma check_listings:
  "listings_of (calls (snd (check_and_add_tags cl arn s))) = listings_of (calls s)"
  by (cases rule: check_cases [of cl arn s]) (simp_all add: listings_of_append, simp_all add: listings_of_def)

lemma check_checked:
  "checked_services (out (snd (check_and_add_tags cl arn s))) = checked_services (out s)"
  by (cases rule: check_cases [of cl arn s])
    (simp_all add: checked_services_append, simp_all add: checked_services_def split: sum.splits)

lemma check_switched:
  "switched_profiles (out (snd (check_and_add_tags cl arn s))) = switched_profiles (out s)"
  by (cases rule: check_cases [of cl arn s])
    (simp_all add: switched_profiles_append, simp_all add: switched_profiles_def split: sum.splits)

lemma for_each_step:
  "fst (body x s) = Inr () \<Longrightarrow> for_each (x # xs) body s = for_each xs body (snd (body x s))"
  by (cases "body x s") (simp add: and_then_def)

lemma resources_loop_Nil: "resources_loop cl [] s = (Inr (), s)"
  by (simp add: resources_loop_def pure_val_def)

lemma resources_loop_Cons:
  "resources_loop cl (r # rest) s =
     resources_loop cl rest (snd (check_and_add_tags cl (ResourceARN r) s))"
  unfolding resources_loop_def by (rule for_each_step) (rule check_returns)

lemma resources_loop_returns: "fst (resources_loop cl rs s) = Inr ()"
  by (induction rs arbitrary: s) (simp_all add: resources_loop_Nil resources_loop_Cons)

lemma resources_loop_reads:
  "reads_of (calls (snd (resources_loop cl rs s))) =
     reads_of (calls s) @ map (\<lambda>r. [ResourceARN r]) rs"
  by (induction rs arbitrary: s) (simp_all add: resources_loop_Nil resources_loop_Cons check_reads)

lemma resources_loop_listings:
  "listings_of (calls (snd (resources_loop cl rs s))) = listings_of (calls s)"
  by (induction rs arbitrary: s) (simp_all add: resources_loop_Nil resources_loop_Cons check_listings)

lemma resources_loop_checked:
  "checked_services (out (snd (resources_loop cl rs s))) = checked_services (out s)"
  by (induction rs arbitrary: s) (simp_all add: resources_loop_Nil resources_loop_Cons check_checked)

lemma resources_loop_switched:
  "switched_profiles (out (snd (resources_loop cl rs s))) = switched_profiles (out s)"
  by (induction rs arbitrary: s) (simp_all add: resources_loop_Nil resources_loop_Cons check_switched)


lemma listing_ok:
  assumes "paginate cl 50 (world s) = ((pages, None), w')"
  shows "get_resources_with_tags cl service s =
           (Inr (fold (\<lambda>page resources. resources @ page_items page) pages []),
            s\<lparr>world := w', calls := calls s @ [Paginate 50]\<rparr>)"
  using assms by (simp add: get_resources_with_tags_def iterate_pages_def try_except_def)

lemma listing_raises:
  assumes "paginate cl 50 (world s) = ((pages, Some e), w')"
  shows "get_resources_with_tags cl service s =
           (Inr [], s\<lparr>world := w', calls := calls s @ [Paginate 50],
                       out := out s @ [ErrorFetching service e]\<rparr>)"
  using assms
  by (simp add: get_resources_with_tags_def iterate_pages_def try_except_def and_then_def
      print_line_def pure_val_def)

lemma listing_cases [case_names listed failed]:
  fixes cl :: "'w client"
  obtains pages w' where "paginate cl 50 (world s) = ((pages, None), w')"
      and "get_resources_with_tags cl service s =
             (Inr (fold (\<lambda>page resources. resources @ page_items page) pages []),
              s\<lparr>world := w', calls := calls s @ [Paginate 50]\<rparr>)"
  | pages e w' where "paginate cl 50 (world s) = ((pages, Some e), w')"
      and "get_resources_with_tags cl service s =
             (Inr [], s\<lparr>world := w', calls := calls s @ [Paginate 50],
                         out := out s @ [ErrorFetching service e]\<rparr>)"
proof (cases "paginate cl 50 (world s)")
  case (Pair res w')
  obtain pages err where res: "res = (pages, err)" by (cases res)
  show thesis
  proof (cases err)
    case None
    with Pair res have "paginate cl 50 (world s) = ((pages, None), w')" by simp
    from this listing_ok [OF this] show thesis by (rule that(1))
  next
    case (Some e)
    with Pair res have "paginate cl 50 (world s) = ((pages, Some e), w')" by simp
    from this listing_raises [OF this] show thesis by (rule that(2))
  qed
qed

lemma listing_returns: "\<exists>rs. fst (get_resources_with_tags cl service s) = Inr rs"
  by (cases rule: listing_cases [of cl s service]) simp_all

lemma listing_listings:
  "listings_of (calls (snd (get_resources_with_tags cl service s))) = listings_of (calls s) @ [50]"
  by (cases rule: listing_cases [of cl s service])
    (simp_all add: listings_of_append, simp_all add: listings_of_def)

lemma listing_checked:
  "checked_services (out (snd (get_resources_with_tags cl service s))) = checked_services (out s)"
  by (cases rule: listing_cases [of cl s service])
    (simp_all add: checked_services_append, simp_all add: checked_services_def)

lemma listing_switched:
  "switched_profiles (out (snd (get_resources_with_tags cl service s))) = switched_profiles (out s)"
  by (cases rule: listing_cases [of cl s service])
    (simp_all add: switched_profiles_append, simp_all add: switched_profiles_def)

section \<open>The loops over services and profiles\<close>

lemma service_pass_eq:
  "service_pass cl service s =
     resources_loop cl
       (projr (fst (get_resources_with_tags cl service (s\<lparr>out := out s @ [Checking service]\<rparr>))))
       (snd (get_resources_with_tags cl service (s\<lparr>out := out s @ [Checking service]\<rparr>)))"
proof -
  obtain rs where
    "fst (get_resources_with_tags cl service (s\<lparr>out := out s @ [Checking service]\<rparr>)) = Inr rs"
    using listing_returns by blast
  then show ?thesis
    by (cases "get_resources_with_tags cl service (s\<lparr>out := out s @ [Checking service]\<rparr>)")
      (simp add: service_pass_def and_then_def print_line_def)
qed

lemma service_pass_returns: "fst (service_pass cl service s) = Inr ()"
  by (simp add: service_pass_eq resources_loop_returns)

lemma service_pass_checked:
  "checked_services (out (snd (service_pass cl service s))) = checked_services (out s) @ [service]"
  by (simp add: service_pass_eq resources_loop_checked listing_checked checked_services_append)
    (simp add: checked_services_def)

lemma service_pass_listings:
  "listings_of (calls (snd (service_pass cl service s))) = listings_of (calls s) @ [50]"
  by (simp add: service_pass_eq resources_loop_listings listing_listings)

lemma service_pass_switched:
  "switched_profiles (out (snd (service_pass cl service s))) = switched_profiles (out s)"
  by (simp add: service_pass_eq resources_loop_switched listing_switched switched_profiles_append)
    (simp add: switched_profiles_def)

lemma services_loop_Nil: "services_loop cl [] s = (Inr (), s)"
  by (simp add: services_loop_def pure_val_def)

lemma services_loop_Cons:
  "services_loop cl (service # rest) s = services_loop cl rest (snd (service_pass cl service s))"
  unfolding services_loop_def by (rule for_each_step) (rule service_pass_returns)

lemma services_loop_returns: "fst (services_loop cl services s) = Inr ()"
  by (induction services arbitrary: s) (simp_all add: services_loop_Nil services_loop_Cons)

lemma services_loop_checked:
  "checked_services (out (snd (services_loop cl services s))) = checked_services (out s) @ services"
  by (induction services arbitrary: s)
    (simp_all add: services_loop_Nil services_loop_Cons service_pass_checked)

lemma services_loop_listings:
  "listings_of (calls (snd (services_loop cl services s))) =
     listings_of (calls s) @ map (\<lambda>service. 50) services"
  by (induction services arbitrary: s)
    (simp_all add: services_loop_Nil services_loop_Cons service_pass_listings)

lemma services_loop_switched:
  "switched_profiles (out (snd (services_loop cl services s))) = switched_profiles (out s)"
  by (induction services arbitrary: s)
    (simp_all add: services_loop_Nil services_loop_Cons service_pass_switched)

lemma service_pass_listing_raises:
  assumes "paginate cl 50 (world s) = ((pages, Some e), w')"
  shows "service_pass cl service s =
           (Inr (), s\<lparr>world := w', calls := calls s @ [Paginate 50],
                       out := out s @ [Checking service, ErrorFetching service e]\<rparr>)"
proof -
  from assms have "paginate cl 50 (world (s\<lparr>out := out s @ [Checking service]\<rparr>)) = ((pages, Some e), w')"
    by simp
  from listing_raises [OF this] show ?thesis
    by (simp add: service_pass_eq resources_loop_Nil)
qed

lemma profile_session_raises:
  assumes "Session sdk p (world s) = (Inl e, w')"
  shows "process_aws_profile sdk p s =
           (Inr (), s\<lparr>world := w', out := out s @ [Switching p, profile_handler p e]\<rparr>)"
  using assms
  by (simp add: process_aws_profile_def process_aws_profile_try_def try_except_def and_then_def
      local_op_def print_line_def)

lemma profile_client_raises:
  assumes "Session sdk p (world s) = (Inr session, w')"
    and "client session ''resourcegroupstaggingapi'' w' = (Inl e, w'')"
  shows "process_aws_profile sdk p s =
           (Inr (), s\<lparr>world := w'', out := out s @ [Switching p, profile_handler p e]\<rparr>)"
  using assms
  by (simp add: process_aws_profile_def process_aws_profile_try_def try_except_def and_then_def
      local_op_def print_line_def)

lemma profile_connected:
  assumes "Session sdk p (world s) = (Inr session, w')"
    and "client session ''resourcegroupstaggingapi'' w' = (Inr cl, w'')"
  shows "process_aws_profile sdk p s =
           services_loop cl TAGGABLE_SERVICES (s\<lparr>out := out s @ [Switching p], world := w''\<rparr>)"
proof -
  let ?s = "s\<lparr>out := out s @ [Switching p], world := w''\<rparr>"
  have "fst (services_loop cl TAGGABLE_SERVICES ?s) = Inr ()"
    by (rule services_loop_returns)
  then show ?thesis
    using assms
    by (cases "services_loop cl TAGGABLE_SERVICES ?s")
      (simp add: process_aws_profile_def process_aws_profile_try_def try_except_def and_then_def
        local_op_def print_line_def)
qed

lemma profile_cases [case_names no_session no_client connected]:
  fixes sdk :: "'w sdk"
  obtains e w' where "Session sdk p (world s) = (Inl e, w')"
      and "process_aws_profile sdk p s =
             (Inr (), s\<lparr>world := w', out := out s @ [Switching p, profile_handler p e]\<rparr>)"
  | session w' e w'' where "Session sdk p (world s) = (Inr session, w')"
      and "client session ''resourcegroupstaggingapi'' w' = (Inl e, w'')"
      and "process_aws_profile sdk p s =
             (Inr (), s\<lparr>world := w'', out := out s @ [Switching p, profile_handler p e]\<rparr>)"
  | session w' cl w'' where "Session sdk p (world s) = (Inr session, w')"
      and "client session ''resourcegroupstaggingapi'' w' = (Inr cl, w'')"
      and "process_aws_profile sdk p s =
             services_loop cl TAGGABLE_SERVICES (s\<lparr>out := out s @ [Switching p], world := w''\<rparr>)"
proof (cases "Session sdk p (world s)")
  case (Pair res w')
  show thesis
  proof (cases res)
    case (Inl e)
    with Pair have "Session sdk p (world s) = (Inl e, w')" by simp
    from this profile_session_raises [OF this] show thesis by (rule that(1))
  next
    case (Inr session)
    with Pair have sess: "Session sdk p (world s) = (Inr session, w')" by simp
    obtain res2 w'' where c: "client session ''resourcegroupstaggingapi'' w' = (res2, w'')"
      by (cases "client session ''resourcegroupstaggingapi'' w'")
    show thesis
    proof (cases res2)
      case (Inl e)
      with c have "client session ''resourcegroupstaggingapi'' w' = (Inl e, w'')" by simp
      from sess this profile_client_raises [OF sess this] show thesis by (rule that(2))
    next
      case (Inr cl)
      with c have "client session ''resourcegroupstaggingapi'' w' = (Inr cl, w'')" by simp
      from sess this profile_connected [OF sess this] show thesis by (rule that(3))
    qed
  qed
qed

lemma handler_not_switching: "switched_profiles [profile_handler p e] = []"
  by (cases e) (simp_all add: switched_profiles_def profile_handler_def)

lemma profile_returns: "fst (process_aws_profile sdk p s) = Inr ()"
  by (cases rule: profile_cases [of sdk p s]) (simp_all add: services_loop_returns)

lemma profile_switched:
  "switched_profiles (out (snd (process_aws_profile sdk p s))) = switched_profiles (out s) @ [p]"
proof (cases rule: profile_cases [of sdk p s])
  case (no_session e w')
  have "switched_profiles [Switching p, profile_handler p e] = [p]"
    using handler_not_switching [of p e] switched_profiles_append [of "[Switching p]" "[profile_handler p e]"]
    by (simp add: switched_profiles_def)
  with no_session(2) show ?thesis by (simp add: switched_profiles_append)
next
  case (no_client session w' e w'')
  have "switched_profiles [Switching p, profile_handler p e] = [p]"
    using handler_not_switching [of p e] switched_profiles_append [of "[Switching p]" "[profile_handler p e]"]
    by (simp add: switched_profiles_def)
  with no_client(3) show ?thesis by (simp add: switched_profiles_append)
next
  case (connected session w' cl w'')
  have "switched_profiles [Switching p] = [p]" by (simp add: switched_profiles_def)
  with connected(3) show ?thesis
    by (simp add: services_loop_switched switched_profiles_append)
qed

lemma profiles_for_each_returns:
  "fst (for_each profiles (\<lambda>profile. process_aws_profile sdk profile) s) = Inr ()"
proof (induction profiles arbitrary: s)
  case Nil
  show ?case by (simp add: pure_val_def)
next
  case (Cons p ps)
  from for_each_step [of "\<lambda>profile. process_aws_profile sdk profile" p s ps] profile_returns [of sdk p s]
  show ?case by (simp add: Cons.IH)
qed

lemma profiles_for_each_switched:
  "switched_profiles (out (snd (for_each profiles (\<lambda>profile. process_aws_profile sdk profile) s))) =
     switched_profiles (out s) @ profiles"
proof (induction profiles arbitrary: s)
  case Nil
  show ?case by (simp add: pure_val_def)
next
  case (Cons p ps)
  from for_each_step [of "\<lambda>profile. process_aws_profile sdk profile" p s ps] profile_returns [of sdk p s]
  show ?case by (simp add: Cons.IH profile_switched)
qed

lemma profiles_loop_returns: "fst (profiles_loop sdk profiles s) = Inr ()"
  by (simp add: profiles_loop_def profiles_for_each_returns print_line_def)

lemma profiles_loop_switched:
  "switched_profiles (out (snd (profiles_loop sdk profiles s))) = switched_profiles (out s) @ profiles"
  by (simp add: profiles_loop_def profiles_for_each_switched print_line_def switched_profiles_append)
    (simp add: switched_profiles_def)

lemma profiles_loop_Cons:
  "profiles_loop sdk (p # rest) s =
     (if rest = [] then process_aws_profile sdk p s
      else profiles_loop sdk rest (snd (process_aws_profile sdk p s)))"
  using for_each_step [of "\<lambda>profile. process_aws_profile sdk profile" p s rest]
    profile_returns [of sdk p s]
  by (cases "process_aws_profile sdk p s") (simp add: profiles_loop_def and_then_def pure_val_def)

lemma main_outcome:
  "fst (main sdk s) = (case fst (available_profiles sdk (world s)) of Inl e \<Rightarrow> Inl e | Inr profiles \<Rightarrow> Inr ())"
proof (cases "available_profiles sdk (world s)")
  case (Pair res w')
  show ?thesis
  proof (cases res)
    case (Inl e)
    with Pair show ?thesis
      by (simp add: main_def get_aws_profiles_def and_then_def local_op_def)
  next
    case (Inr profiles)
    with Pair show ?thesis
      by (simp add: main_def get_aws_profiles_def and_then_def local_op_def profiles_loop_returns)
  qed
qed

section \<open>The effect of the writes of a run\<close>

lemma apply_tags_other:
  "map_of tags k = None \<Longrightarrow> map_of (apply_tags tags current) k = map_of current k"
proof (induction tags arbitrary: current)
  case Nil
  then show ?case by (simp add: apply_tags_def)
next
  case (Cons p tags)
  obtain k' v' where p: "p = (k', v')" by (cases p)
  from Cons.prems have "k' \<noteq> k" and "map_of tags k = None"
    by (auto simp: p split: if_splits)
  with Cons.IH [of "dict_set k' v' current"] show ?case
    by (simp add: p apply_tags_def dict_set_def AList.update_conv')
qed

lemma keys_apply_tags: "dict_keys (apply_tags tags current) = dict_keys current \<union> dict_keys tags"
proof (induction tags arbitrary: current)
  case Nil
  then show ?case by (simp add: apply_tags_def dict_keys_def)
next
  case (Cons p tags)
  obtain k v where p: "p = (k, v)" by (cases p)
  have "dict_keys (apply_tags tags (dict_set k v current)) = dict_keys (dict_set k v current) \<union> dict_keys tags"
    by (rule Cons.IH)
  then show ?case
    by (auto simp: p apply_tags_def dict_keys_def dict_set_def AList.dom_update)
qed

lemma tags_after_complete: "tags_after arn T [GetResources [arn]] = T"
  by (simp add: tags_after_def)

lemma tags_after_written:
  "tags_after arn T [GetResources [arn], TagResources [arn] tags] = apply_tags tags T"
  by (simp add: tags_after_def)

lemma required_keys_after_run:
  fixes cl :: "'w client"
  assumes "get_resources cl [arn] (world s) = (Inr resp, w')"
  shows "dict_keys REQUIRED_TAGS \<subseteq>
           dict_keys (tags_after arn (existing_tags_of resp) (issued (check_and_add_tags cl arn) s))"
proof (cases "missing_tags_of (existing_tags_of resp) = []")
  case True
  from issued_nothing_missing [OF assms True] True show ?thesis
    by (simp add: tags_after_complete missing_tags_empty)
next
  case False
  from issued_missing [OF assms False] show ?thesis
    by (auto simp: tags_after_written keys_apply_tags keys_tags_arg_missing)
qed

lemma dict_keys_map_of: "map_of d = map_of d' \<Longrightarrow> dict_keys d = dict_keys d'"
  unfolding dict_keys_def by (metis dom_map_of_conv_image_fst)

lemma checked_after_switching:
  "checked_services (out s @ [Switching p]) = checked_services (out s)"
  by (simp add: checked_services_def)

lemma profile_checked:
  assumes "Session sdk p (world s) = (Inr session, w')"
    and "client session ''resourcegroupstaggingapi'' w' = (Inr cl, w'')"
  shows "checked_services (out (snd (process_aws_profile sdk p s))) =
           checked_services (out s) @ TAGGABLE_SERVICES"
  by (simp add: profile_connected [OF assms] services_loop_checked checked_after_switching)

lemma services_loop_listing_raises:
  assumes "paginate cl 50 (world s) = ((pages, Some e), w')"
  shows "services_loop cl (service # rest) s =
           services_loop cl rest
             (s\<lparr>world := w', calls := calls s @ [Paginate 50],
                out := out s @ [Checking service, ErrorFetching service e]\<rparr>)"
  by (simp add: services_loop_Cons service_pass_listing_raises [OF assms])

section \<open>Runs on the in-memory account\<close>

lemma demo_read:
  "get_resources demo_client [arn] (world (start (account [(arn, tags)]))) =
     (Inr (read_answer arn tags), account [(arn, tags)])"
  by (simp add: demo_client_def start_def account_def read_answer_def)

lemma existing_read_answer:
  "distinct (map fst tags) \<Longrightarrow> existing_tags_of (read_answer arn tags) = tags"
  using fold_dict_set_fresh [of tags "[]"]
  by (simp add: existing_tags_of_def read_answer_def describe_def)

lemma demo_try_ok:
  "fst (check_and_add_tags_try demo_client arn (start (account [(arn, tags)]))) = Inr ()"
  by (simp add: check_and_add_tags_try_def and_then_def request_def print_line_def
      demo_client_def start_def account_def Let_def)

lemma demo_first_run:
  "snd (check_and_add_tags demo_client logs_bucket
          (start (account [(logs_bucket, [(''Environment'', ''Staging'')])]))) =
     \<lparr>world = account [(logs_bucket, [(''Environment'', ''Staging''), (''Owner'', ''CloudEng'')])],
      calls = [GetResources [logs_bucket], TagResources [logs_bucket] [(''Owner'', ''CloudEng'')]],
      out = [AddedMissing [\<lparr>Key = ''Owner'', Value = ''CloudEng''\<rparr>] logs_bucket]\<rparr>"
proof -
  let ?T = "[(''Environment'', ''Staging'')]"
  have T: "existing_tags_of (read_answer logs_bucket ?T) = ?T"
    by (simp add: existing_read_answer)
  have m: "missing_tags_of ?T = [\<lparr>Key = ''Owner'', Value = ''CloudEng''\<rparr>]"
    by (simp add: missing_tags_of_def REQUIRED_TAGS_def dict_has_def)
  have a: "tags_arg [\<lparr>Key = ''Owner'', Value = ''CloudEng''\<rparr>] = [(''Owner'', ''CloudEng'')]"
    by (simp add: tags_arg_def dict_set_def)
  have w: "tag_resources demo_client [logs_bucket] (tags_arg [\<lparr>Key = ''Owner'', Value = ''CloudEng''\<rparr>])
             (account [(logs_bucket, ?T)]) =
           (Inr (), account [(logs_bucket, [(''Environment'', ''Staging''), (''Owner'', ''CloudEng'')])])"
    by (simp add: a demo_client_def account_def apply_tags_def dict_set_def)
  have "missing_tags_of (existing_tags_of (read_answer logs_bucket ?T)) =
          [\<lparr>Key = ''Owner'', Value = ''CloudEng''\<rparr>]"
    by (simp add: T m)
  from check_write [OF demo_read this _ w] show ?thesis
    by (simp add: a start_def)
qed

lemma faulty_read_bucket:
  "get_resources demo_client [logs_bucket] (world (start faulty_account)) =
     (Inl (OtherError ''AccessDenied''), faulty_account)"
  by (simp add: demo_client_def start_def faulty_account_def)

lemma faulty_read_server:
  "get_resources demo_client [web_server] (world (start faulty_account)) =
     (Inr (read_answer web_server []), faulty_account)"
  by (simp add: demo_client_def start_def faulty_account_def read_answer_def logs_bucket_def
      web_server_def)

lemma missing_of_untagged:
  "missing_tags_of (existing_tags_of (read_answer arn [])) =
     [\<lparr>Key = ''Environment'', Value = ''Production''\<rparr>, \<lparr>Key = ''Owner'', Value = ''CloudEng''\<rparr>]"
  by (simp add: existing_read_answer missing_tags_of_def REQUIRED_TAGS_def dict_has_def)

lemma faulty_write_server:
  "tag_resources demo_client [web_server] tags faulty_account =
     (Inl (OtherError ''InternalServiceException''), faulty_account)"
  by (simp add: demo_client_def faulty_account_def)

lemma faulty_listing:
  "paginate demo_client 50 (world (start faulty_account)) =
     (([], Some (OtherError ''Throttling'')), faulty_account\<lparr>broken_listings := 0\<rparr>)"
  by (simp add: demo_client_def start_def faulty_account_def)

lemma faulty_session:
  "Session demo_sdk ''default'' (world (start faulty_account)) =
     (Inr \<lparr>client = (\<lambda>service w'.
              if ''default'' \<in> set (no_credentials w') then (Inl NoCredentialsError, w')
              else (Inr demo_client, w'))\<rparr>, faulty_account)"
  by (simp add: demo_sdk_def start_def faulty_account_def)

lemma faulty_client:
  "client \<lparr>client = (\<lambda>service w'.
              if ''default'' \<in> set (no_credentials w') then (Inl NoCredentialsError, w')
              else (Inr demo_client, w'))\<rparr> ''resourcegroupstaggingapi'' faulty_account =
     (Inr demo_client, faulty_account)"
  by (simp add: faulty_account_def)

lemma ghost_session:
  "Session demo_sdk ''ghost'' (world (start faulty_account)) = (Inl ProfileNotFound, faulty_account)"
  by (simp add: demo_sdk_def start_def faulty_account_def)

lemma audit_session:
  "Session demo_sdk ''audit'' (world (start faulty_account)) =
     (Inr \<lparr>client = (\<lambda>service w'.
              if ''audit'' \<in> set (no_credentials w') then (Inl NoCredentialsError, w')
              else (Inr demo_client, w'))\<rparr>, faulty_account)"
  by (simp add: demo_sdk_def start_def faulty_account_def)

lemma audit_client:
  "client \<lparr>client = (\<lambda>service w'.
              if ''audit'' \<in> set (no_credentials w') then (Inl NoCredentialsError, w')
              else (Inr demo_client, w'))\<rparr> ''resourcegroupstaggingapi'' faulty_account =
     (Inl NoCredentialsError, faulty_account)"
  by (simp add: faulty_account_def)

section \<open>Tag reconciliation\<close>

text \<open>
  C1. When the tag read of a resource succeeds and the tags it returns lack at least one
  key of \<open>REQUIRED_TAGS\<close>, \<open>check_and_add_tags\<close> issues, after the read, exactly one
  \<open>tag_resources\<close> request for that resource. The keys of its tag mapping are exactly the
  required keys the resource lacks, each key occurs once, and each is paired with the value
  \<open>REQUIRED_TAGS\<close> gives it.
\<close>

theorem missing_tags_written:
  fixes cl :: "'w client"
  defines "written T \<equiv> tags_arg (missing_tags_of T)"
  assumes "get_resources cl [arn] (world s) = (Inr resp, w')"
    and "\<not> dict_keys REQUIRED_TAGS \<subseteq> dict_keys (existing_tags_of resp)"
  shows "issued (check_and_add_tags cl arn) s =
           [GetResources [arn], TagResources [arn] (written (existing_tags_of resp))]
         \<and> writes_of (issued (check_and_add_tags cl arn) s) =
             [([arn], written (existing_tags_of resp))]
         \<and> dict_keys (written (existing_tags_of resp)) =
             dict_keys REQUIRED_TAGS - dict_keys (existing_tags_of resp)
         \<and> distinct (map fst (written (existing_tags_of resp)))
         \<and> (\<forall>k \<in> dict_keys (written (existing_tags_of resp)).
              map_of (written (existing_tags_of resp)) k = map_of REQUIRED_TAGS k)"
proof -
  let ?T = "existing_tags_of resp"
  from assms(3) have missing: "missing_tags_of ?T \<noteq> []"
    by (simp add: missing_tags_empty)
  have trace: "issued (check_and_add_tags cl arn) s =
                 [GetResources [arn], TagResources [arn] (written ?T)]"
    unfolding written_def by (rule issued_missing [OF assms(2) missing])
  have vals: "\<forall>k \<in> dict_keys (written ?T). map_of (written ?T) k = map_of REQUIRED_TAGS k"
    by (simp add: written_def keys_tags_arg_missing map_of_tags_arg_missing dict_has_keys)
  show ?thesis
    using trace vals
    by (simp add: writes_of_def written_def keys_tags_arg_missing distinct_tags_arg_missing)
qed

text \<open>
  The end-to-end example of C1: the bucket carries
  \<^verbatim>\<open>{"Environment": "Production"}\<close>, and the write applies \<^verbatim>\<open>{"Owner": "CloudEng"}\<close> only.
\<close>

theorem missing_tags_written_witness:
  "get_resources demo_client [logs_bucket]
     (world (start (account [(logs_bucket, [(''Environment'', ''Production'')])]))) =
     (Inr (read_answer logs_bucket [(''Environment'', ''Production'')]),
      account [(logs_bucket, [(''Environment'', ''Production'')])])
   \<and> \<not> dict_keys REQUIRED_TAGS \<subseteq>
       dict_keys (existing_tags_of (read_answer logs_bucket [(''Environment'', ''Production'')]))
   \<and> issued (check_and_add_tags demo_client logs_bucket)
       (start (account [(logs_bucket, [(''Environment'', ''Production'')])])) =
       [GetResources [logs_bucket], TagResources [logs_bucket] [(''Owner'', ''CloudEng'')]]"
proof -
  let ?T = "[(''Environment'', ''Production'')]"
  have T: "existing_tags_of (read_answer logs_bucket ?T) = ?T"
    by (simp add: existing_read_answer)
  have m: "\<not> dict_keys REQUIRED_TAGS \<subseteq> dict_keys (existing_tags_of (read_answer logs_bucket ?T))"
    by (simp add: T dict_keys_def REQUIRED_TAGS_def)
  have w: "tags_arg (missing_tags_of ?T) = [(''Owner'', ''CloudEng'')]"
    by (simp add: tags_arg_def missing_tags_of_def REQUIRED_TAGS_def dict_has_def dict_set_def)
  from missing_tags_written [OF demo_read m] demo_read [of logs_bucket ?T] m w T show ?thesis
    by simp
qed

text \<open>
  C2. When the tag read of a resource succeeds and the tags it returns contain every key of
  \<open>REQUIRED_TAGS\<close>, the only request \<open>check_and_add_tags\<close> issues is the read: no
  \<open>tag_resources\<close> request is sent.
\<close>

theorem no_write_when_complete:
  fixes cl :: "'w client"
  assumes "get_resources cl [arn] (world s) = (Inr resp, w')"
    and "dict_keys REQUIRED_TAGS \<subseteq> dict_keys (existing_tags_of resp)"
  shows "issued (check_and_add_tags cl arn) s = [GetResources [arn]]
         \<and> writes_of (issued (check_and_add_tags cl arn) s) = []"
proof -
  from assms(2) have "missing_tags_of (existing_tags_of resp) = []"
    by (simp add: missing_tags_empty)
  from issued_nothing_missing [OF assms(1) this] show ?thesis
    by (simp add: writes_of_def)
qed

text \<open>
  The end-to-end example of C2: a bucket that carries both required tags triggers no write.
\<close>

theorem no_write_when_complete_witness:
  "get_resources demo_client [logs_bucket]
     (world (start (account [(logs_bucket, [(''Environment'', ''Production''), (''Owner'', ''CloudEng'')])]))) =
     (Inr (read_answer logs_bucket [(''Environment'', ''Production''), (''Owner'', ''CloudEng'')]),
      account [(logs_bucket, [(''Environment'', ''Production''), (''Owner'', ''CloudEng'')])])
   \<and> dict_keys REQUIRED_TAGS \<subseteq>
       dict_keys (existing_tags_of
         (read_answer logs_bucket [(''Environment'', ''Production''), (''Owner'', ''CloudEng'')]))
   \<and> writes_of (issued (check_and_add_tags demo_client logs_bucket)
       (start (account [(logs_bucket, [(''Environment'', ''Production''), (''Owner'', ''CloudEng'')])]))) = []"
proof -
  let ?T = "[(''Environment'', ''Production''), (''Owner'', ''CloudEng'')]"
  have T: "existing_tags_of (read_answer logs_bucket ?T) = ?T"
    by (simp add: existing_read_answer)
  have m: "dict_keys REQUIRED_TAGS \<subseteq> dict_keys (existing_tags_of (read_answer logs_bucket ?T))"
    by (simp add: T dict_keys_def REQUIRED_TAGS_def)
  from no_write_when_complete [OF demo_read m] demo_read [of logs_bucket ?T] m show ?thesis
    by blast
qed

text \<open>
  C3. A key that the tag read returned is in no write request of \<open>check_and_add_tags\<close>, so
  the resource keeps the value it had under that key, whatever value \<open>REQUIRED_TAGS\<close> gives
  to the key.
\<close>

theorem existing_values_kept:
  fixes cl :: "'w client"
  assumes "get_resources cl [arn] (world s) = (Inr resp, w')"
    and "map_of (existing_tags_of resp) k = Some v"
  shows "(\<forall>w \<in> set (writes_of (issued (check_and_add_tags cl arn) s)). \<not> dict_has (snd w) k)
         \<and> map_of (tags_after arn (existing_tags_of resp) (issued (check_and_add_tags cl arn) s)) k
             = Some v"
proof (cases "missing_tags_of (existing_tags_of resp) = []")
  case True
  from issued_nothing_missing [OF assms(1) True] assms(2) show ?thesis
    by (simp add: writes_of_def tags_after_complete)
next
  case False
  let ?T = "existing_tags_of resp"
  from assms(2) have has: "dict_has ?T k" by (simp add: dict_has_def)
  then have none: "map_of (tags_arg (missing_tags_of ?T)) k = None"
    by (simp add: map_of_tags_arg_missing)
  from issued_missing [OF assms(1) False] none assms(2) show ?thesis
    by (simp add: writes_of_def tags_after_written apply_tags_other dict_has_def)
qed

text \<open>
  C3 on a bucket tagged \<^verbatim>\<open>{"Environment": "Staging"}\<close>, where the required value is
  \<^verbatim>\<open>"Production"\<close>: the write leaves \<^verbatim>\<open>Environment\<close> out and the value stays \<^verbatim>\<open>"Staging"\<close>.
\<close>

theorem existing_values_kept_witness:
  "get_resources demo_client [logs_bucket]
     (world (start (account [(logs_bucket, [(''Environment'', ''Staging'')])]))) =
     (Inr (read_answer logs_bucket [(''Environment'', ''Staging'')]),
      account [(logs_bucket, [(''Environment'', ''Staging'')])])
   \<and> map_of (existing_tags_of (read_answer logs_bucket [(''Environment'', ''Staging'')]))
        ''Environment'' = Some ''Staging''
   \<and> map_of REQUIRED_TAGS ''Environment'' = Some ''Production''
   \<and> list_all (\<lambda>w. \<not> dict_has (snd w) ''Environment'')
        (writes_of (issued (check_and_add_tags demo_client logs_bucket)
                      (start (account [(logs_bucket, [(''Environment'', ''Staging'')])]))))
   \<and> map_of (tags_after logs_bucket
               (existing_tags_of (read_answer logs_bucket [(''Environment'', ''Staging'')]))
               (issued (check_and_add_tags demo_client logs_bucket)
                  (start (account [(logs_bucket, [(''Environment'', ''Staging'')])]))))
        ''Environment'' = Some ''Staging''"
proof -
  let ?T = "[(''Environment'', ''Staging'')]"
  have T: "existing_tags_of (read_answer logs_bucket ?T) = ?T"
    by (simp add: existing_read_answer)
  have k: "map_of (existing_tags_of (read_answer logs_bucket ?T)) ''Environment'' = Some ''Staging''"
    by (simp add: T)
  have r: "map_of REQUIRED_TAGS ''Environment'' = Some ''Production''"
    by (simp add: REQUIRED_TAGS_def)
  from existing_values_kept [OF demo_read k] demo_read [of logs_bucket ?T] k r show ?thesis
    unfolding list_all_iff by blast
qed

text \<open>
  C9. When the \<^verbatim>\<open>try\<close> block of \<open>check_and_add_tags\<close> runs to its end without an exception,
  the tags the read returned, extended with the entries of the write request (if one was
  sent), have every key of \<open>REQUIRED_TAGS\<close>.
\<close>

theorem all_required_keys_afterwards:
  fixes cl :: "'w client"
  assumes "fst (check_and_add_tags_try cl arn s) = Inr ()"
    and "get_resources cl [arn] (world s) = (Inr resp, w')"
  shows "dict_keys REQUIRED_TAGS \<subseteq>
           dict_keys (tags_after arn (existing_tags_of resp) (issued (check_and_add_tags cl arn) s))"
  using assms(2) by (rule required_keys_after_run)

text \<open>C9 on the bucket of the first example, whose read and write both succeed.\<close>

theorem all_required_keys_afterwards_witness:
  "fst (check_and_add_tags_try demo_client logs_bucket
          (start (account [(logs_bucket, [(''Environment'', ''Production'')])]))) = Inr ()
   \<and> get_resources demo_client [logs_bucket]
       (world (start (account [(logs_bucket, [(''Environment'', ''Production'')])]))) =
       (Inr (read_answer logs_bucket [(''Environment'', ''Production'')]),
        account [(logs_bucket, [(''Environment'', ''Production'')])])
   \<and> dict_keys REQUIRED_TAGS \<subseteq>
       dict_keys (tags_after logs_bucket
         (existing_tags_of (read_answer logs_bucket [(''Environment'', ''Production'')]))
         (issued (check_and_add_tags demo_client logs_bucket)
            (start (account [(logs_bucket, [(''Environment'', ''Production'')])]))))"
  using all_required_keys_afterwards [OF demo_try_ok demo_read]
    demo_try_ok [of logs_bucket "[(''Environment'', ''Production'')]"]
    demo_read [of logs_bucket "[(''Environment'', ''Production'')]"]
  by blast

text \<open>
  C10. Take a first run of \<open>check_and_add_tags\<close> whose \<^verbatim>\<open>try\<close> block raises nothing, and the
  tags that result from it: the tags its read returned, extended with the entries it wrote.
  In any later run, on any client and state, whose read returns that mapping, the list of
  missing tags is empty and the only request issued is the read.
\<close>

theorem reconciliation_idempotent:
  fixes cl :: "'w client" and cl2 :: "'v client"
  assumes "get_resources cl [arn] (world s) = (Inr resp, w')"
    and "fst (check_and_add_tags_try cl arn s) = Inr ()"
    and "get_resources cl2 [arn] (world s2) = (Inr resp2, w2)"
    and "map_of (existing_tags_of resp2) =
           map_of (tags_after arn (existing_tags_of resp) (issued (check_and_add_tags cl arn) s))"
  shows "missing_tags_of (existing_tags_of resp2) = []
         \<and> issued (check_and_add_tags cl2 arn) s2 = [GetResources [arn]]
         \<and> writes_of (issued (check_and_add_tags cl2 arn) s2) = []"
proof -
  from dict_keys_map_of [OF assms(4)] required_keys_after_run [OF assms(1)]
  have "dict_keys REQUIRED_TAGS \<subseteq> dict_keys (existing_tags_of resp2)"
    by simp
  then have none: "missing_tags_of (existing_tags_of resp2) = []"
    by (simp add: missing_tags_empty)
  from issued_nothing_missing [OF assms(3) none] none show ?thesis
    by (simp add: writes_of_def)
qed

text \<open>
  C10 on the in-memory account: the second of two runs in sequence sends no write.
\<close>

theorem reconciliation_idempotent_witness:
  "get_resources demo_client [logs_bucket]
     (world (start (account [(logs_bucket, [(''Environment'', ''Staging'')])]))) =
     (Inr (read_answer logs_bucket [(''Environment'', ''Staging'')]),
      account [(logs_bucket, [(''Environment'', ''Staging'')])])
   \<and> fst (check_and_add_tags_try demo_client logs_bucket
            (start (account [(logs_bucket, [(''Environment'', ''Staging'')])]))) = Inr ()
   \<and> writes_of (issued (check_and_add_tags demo_client logs_bucket)
        (snd (check_and_add_tags demo_client logs_bucket
               (start (account [(logs_bucket, [(''Environment'', ''Staging'')])]))))) = []"
proof -
  let ?T = "[(''Environment'', ''Staging'')]"
  let ?T' = "[(''Environment'', ''Staging''), (''Owner'', ''CloudEng'')]"
  let ?s = "start (account [(logs_bucket, ?T)])"
  let ?s2 = "snd (check_and_add_tags demo_client logs_bucket ?s)"
  have T: "existing_tags_of (read_answer logs_bucket ?T) = ?T"
    and T': "existing_tags_of (read_answer logs_bucket ?T') = ?T'"
    by (simp_all add: existing_read_answer)
  have second: "get_resources demo_client [logs_bucket] (world ?s2) =
                  (Inr (read_answer logs_bucket ?T'), account [(logs_bucket, ?T')])"
    by (simp add: demo_first_run) (simp add: demo_client_def account_def read_answer_def)
  have "issued (check_and_add_tags demo_client logs_bucket) ?s =
          [GetResources [logs_bucket], TagResources [logs_bucket] [(''Owner'', ''CloudEng'')]]"
    by (simp add: issued_def demo_first_run) (simp add: start_def)
  then have same: "map_of (existing_tags_of (read_answer logs_bucket ?T')) =
          map_of (tags_after logs_bucket (existing_tags_of (read_answer logs_bucket ?T))
                    (issued (check_and_add_tags demo_client logs_bucket) ?s))"
    by (simp add: T T' tags_after_written apply_tags_def dict_set_def)
  from reconciliation_idempotent [OF demo_read demo_try_ok second same]
    demo_read [of logs_bucket ?T] demo_try_ok [of logs_bucket ?T]
  show ?thesis by blast
qed


section \<open>Error isolation\<close>

text \<open>
  C5. \<open>check_and_add_tags\<close> never raises: an exception of its tag read or of its tag write
  is caught, and the line printed for it names the resource and the exception. One
  iteration of the loop over the resources of a pass therefore always hands over to the
  next one, the loop never raises, and it sends one tag read for every resource of the
  pass, in order, whatever failed on the way.
\<close>

theorem resource_failures_isolated:
  fixes cl :: "'w client"
  shows "fst (check_and_add_tags cl arn s) = Inr ()
    \<and> (\<forall>e w'. get_resources cl [arn] (world s) = (Inl e, w') \<longrightarrow>
          out (snd (check_and_add_tags cl arn s)) = out s @ [ErrorProcessing arn e])
    \<and> (\<forall>resp w' e w''.
          get_resources cl [arn] (world s) = (Inr resp, w') \<and>
          missing_tags_of (existing_tags_of resp) \<noteq> [] \<and>
          tag_resources cl [arn] (tags_arg (missing_tags_of (existing_tags_of resp))) w' = (Inl e, w'')
          \<longrightarrow> out (snd (check_and_add_tags cl arn s)) = out s @ [ErrorProcessing arn e])
    \<and> resources_loop cl (r # rest) s =
          resources_loop cl rest (snd (check_and_add_tags cl (ResourceARN r) s))
    \<and> fst (resources_loop cl rs s) = Inr ()
    \<and> reads_of (calls (snd (resources_loop cl rs s))) =
          reads_of (calls s) @ map (\<lambda>resource. [ResourceARN resource]) rs"
proof -
  have rfail: "\<forall>e w'. get_resources cl [arn] (world s) = (Inl e, w') \<longrightarrow>
          out (snd (check_and_add_tags cl arn s)) = out s @ [ErrorProcessing arn e]"
    by (simp add: check_read_raises)
  have "out (snd (check_and_add_tags cl arn s)) = out s @ [ErrorProcessing arn e]"
    if "get_resources cl [arn] (world s) = (Inr resp, w')"
      and "missing_tags_of (existing_tags_of resp) \<noteq> []"
      and "tag_resources cl [arn] (tags_arg (missing_tags_of (existing_tags_of resp))) w' = (Inl e, w'')"
    for resp w' e w''
    using check_write [OF that(1) refl that(2) that(3)] by simp
  then have wfail: "\<forall>resp w' e w''.
          get_resources cl [arn] (world s) = (Inr resp, w') \<and>
          missing_tags_of (existing_tags_of resp) \<noteq> [] \<and>
          tag_resources cl [arn] (tags_arg (missing_tags_of (existing_tags_of resp))) w' = (Inl e, w'')
          \<longrightarrow> out (snd (check_and_add_tags cl arn s)) = out s @ [ErrorProcessing arn e]"
    by blast
  from rfail wfail show ?thesis
    using check_returns [of cl arn s] resources_loop_Cons [of cl r rest s]
      resources_loop_returns [of cl rs s] resources_loop_reads [of cl rs s]
    by blast
qed

text \<open>
  C5 on a pass over a bucket whose read fails and a server whose write fails: both failures
  are printed and both resources are read.
\<close>

theorem resource_failures_isolated_witness:
  "get_resources demo_client [logs_bucket] (world (start faulty_account)) =
     (Inl (OtherError ''AccessDenied''), faulty_account)
   \<and> out (snd (check_and_add_tags demo_client logs_bucket (start faulty_account))) =
       out (start faulty_account) @ [ErrorProcessing logs_bucket (OtherError ''AccessDenied'')]
   \<and> get_resources demo_client [web_server] (world (start faulty_account)) =
       (Inr (read_answer web_server []), faulty_account)
   \<and> missing_tags_of (existing_tags_of (read_answer web_server [])) \<noteq> []
   \<and> tag_resources demo_client [web_server]
        (tags_arg (missing_tags_of (existing_tags_of (read_answer web_server [])))) faulty_account =
       (Inl (OtherError ''InternalServiceException''), faulty_account)
   \<and> out (snd (check_and_add_tags demo_client web_server (start faulty_account))) =
       out (start faulty_account) @
         [ErrorProcessing web_server (OtherError ''InternalServiceException'')]
   \<and> fst (resources_loop demo_client [describe (logs_bucket, []), describe (web_server, [])]
            (start faulty_account)) = Inr ()
   \<and> reads_of (calls (snd (resources_loop demo_client
            [describe (logs_bucket, []), describe (web_server, [])] (start faulty_account)))) =
       [[logs_bucket], [web_server]]"
proof -
  let ?s = "start faulty_account"
  let ?rs = "[describe (logs_bucket, []), describe (web_server, [])]"
  have m: "missing_tags_of (existing_tags_of (read_answer web_server [])) \<noteq> []"
    by (simp add: missing_of_untagged)
  note bucket = resource_failures_isolated [of demo_client logs_bucket ?s _ _ ?rs]
  note server = resource_failures_isolated [of demo_client web_server ?s _ _ ?rs]
  from bucket faulty_read_bucket
  have 1: "out (snd (check_and_add_tags demo_client logs_bucket ?s)) =
             out ?s @ [ErrorProcessing logs_bucket (OtherError ''AccessDenied'')]"
    by blast
  from server faulty_read_server m faulty_write_server
  have 2: "out (snd (check_and_add_tags demo_client web_server ?s)) =
             out ?s @ [ErrorProcessing web_server (OtherError ''InternalServiceException'')]"
    by blast
  from bucket have 3: "fst (resources_loop demo_client ?rs ?s) = Inr ()"
    and 4: "reads_of (calls (snd (resources_loop demo_client ?rs ?s))) =
              reads_of (calls ?s) @ map (\<lambda>resource. [ResourceARN resource]) ?rs"
    by blast+
  from 4 have 5: "reads_of (calls (snd (resources_loop demo_client ?rs ?s))) =
                    [[logs_bucket], [web_server]]"
    by (simp add: start_def reads_of_def describe_def)
  from faulty_read_bucket 1 faulty_read_server m faulty_write_server 2 3 5 show ?thesis
    by blast
qed


text \<open>
  C6. \<open>get_resources_with_tags\<close> never raises. When the listing raises, it prints the
  service and the exception and returns the empty list, and the loop over the services goes
  on with the services that remain. The loop never raises; it prints one
  \<^verbatim>\<open>Checking ...\<close> line and sends one listing request (50 resources per page) for every
  service it was given, in order. A profile whose session and client are created visits
  every service of \<open>TAGGABLE_SERVICES\<close>.
\<close>

theorem listing_failures_isolated:
  fixes cl :: "'w client" and sdk :: "'w sdk"
  shows "(\<exists>resources. fst (get_resources_with_tags cl service s) = Inr resources)
    \<and> (\<forall>pages e w'. paginate cl 50 (world s) = ((pages, Some e), w') \<longrightarrow>
          get_resources_with_tags cl service s =
            (Inr [], s\<lparr>world := w', calls := calls s @ [Paginate 50],
                        out := out s @ [ErrorFetching service e]\<rparr>)
          \<and> services_loop cl (service # rest) s =
              services_loop cl rest
                (s\<lparr>world := w', calls := calls s @ [Paginate 50],
                   out := out s @ [Checking service, ErrorFetching service e]\<rparr>))
    \<and> fst (services_loop cl services s) = Inr ()
    \<and> checked_services (out (snd (services_loop cl services s))) =
          checked_services (out s) @ services
    \<and> listings_of (calls (snd (services_loop cl services s))) =
          listings_of (calls s) @ map (\<lambda>service. 50) services
    \<and> (\<forall>session w' tag_client w''.
          Session sdk p (world s) = (Inr session, w') \<and>
          client session ''resourcegroupstaggingapi'' w' = (Inr tag_client, w'')
          \<longrightarrow> checked_services (out (snd (process_aws_profile sdk p s))) =
                checked_services (out s) @ TAGGABLE_SERVICES)"
proof -
  have fails: "\<forall>pages e w'. paginate cl 50 (world s) = ((pages, Some e), w') \<longrightarrow>
          get_resources_with_tags cl service s =
            (Inr [], s\<lparr>world := w', calls := calls s @ [Paginate 50],
                        out := out s @ [ErrorFetching service e]\<rparr>)
          \<and> services_loop cl (service # rest) s =
              services_loop cl rest
                (s\<lparr>world := w', calls := calls s @ [Paginate 50],
                   out := out s @ [Checking service, ErrorFetching service e]\<rparr>)"
    by (simp add: listing_raises services_loop_listing_raises)
  have whole: "\<forall>session w' tag_client w''.
          Session sdk p (world s) = (Inr session, w') \<and>
          client session ''resourcegroupstaggingapi'' w' = (Inr tag_client, w'')
          \<longrightarrow> checked_services (out (snd (process_aws_profile sdk p s))) =
                checked_services (out s) @ TAGGABLE_SERVICES"
    by (simp add: profile_checked)
  from fails whole show ?thesis
    using listing_returns [of cl service s] services_loop_returns [of cl services s]
      services_loop_checked [of cl services s] services_loop_listings [of cl services s]
    by blast
qed

text \<open>
  C6 on an account whose first listing request fails: the failure for \<^verbatim>\<open>ec2\<close> is printed
  and all fifteen services are checked.
\<close>

theorem listing_failures_isolated_witness:
  "paginate demo_client 50 (world (start faulty_account)) =
     (([], Some (OtherError ''Throttling'')), faulty_account\<lparr>broken_listings := 0\<rparr>)
   \<and> get_resources_with_tags demo_client ''ec2'' (start faulty_account) =
       (Inr [], (start faulty_account)
                  \<lparr>world := faulty_account\<lparr>broken_listings := 0\<rparr>,
                   calls := calls (start faulty_account) @ [Paginate 50],
                   out := out (start faulty_account) @
                            [ErrorFetching ''ec2'' (OtherError ''Throttling'')]\<rparr>)
   \<and> checked_services (out (snd (services_loop demo_client TAGGABLE_SERVICES
         (start faulty_account)))) = TAGGABLE_SERVICES
   \<and> checked_services (out (snd (process_aws_profile demo_sdk ''default''
         (start faulty_account)))) = TAGGABLE_SERVICES"
proof -
  let ?s = "start faulty_account"
  note inst = listing_failures_isolated
    [of demo_client "''ec2''" ?s "tl TAGGABLE_SERVICES" TAGGABLE_SERVICES demo_sdk "''default''"]
  from inst faulty_listing
  have 1: "get_resources_with_tags demo_client ''ec2'' ?s =
       (Inr [], ?s\<lparr>world := faulty_account\<lparr>broken_listings := 0\<rparr>,
                   calls := calls ?s @ [Paginate 50],
                   out := out ?s @ [ErrorFetching ''ec2'' (OtherError ''Throttling'')]\<rparr>)"
    by blast
  from inst have "checked_services (out (snd (services_loop demo_client TAGGABLE_SERVICES ?s))) =
      checked_services (out ?s) @ TAGGABLE_SERVICES"
    by blast
  then have 2: "checked_services (out (snd (services_loop demo_client TAGGABLE_SERVICES ?s))) =
      TAGGABLE_SERVICES"
    by (simp add: start_def checked_services_def)
  from inst faulty_session faulty_client
  have "checked_services (out (snd (process_aws_profile demo_sdk ''default'' ?s))) =
      checked_services (out ?s) @ TAGGABLE_SERVICES"
    by blast
  then have 3: "checked_services (out (snd (process_aws_profile demo_sdk ''default'' ?s))) =
      TAGGABLE_SERVICES"
    by (simp add: start_def checked_services_def)
  from faulty_listing 1 2 3 show ?thesis by blast
qed


text \<open>
  C7. \<open>process_aws_profile\<close> never raises. When the session or the client of a profile
  cannot be created, the exception is caught and the line of the first matching
  \<^verbatim>\<open>except\<close> clause is printed after the \<^verbatim>\<open>Switching ...\<close> line. The main loop then goes on
  with the profiles that remain: it never raises and it switches to every profile it was
  given, in order.
\<close>

theorem profile_failures_isolated:
  fixes sdk :: "'w sdk"
  shows "fst (process_aws_profile sdk p s) = Inr ()
    \<and> (\<forall>e w'. Session sdk p (world s) = (Inl e, w') \<longrightarrow>
          process_aws_profile sdk p s =
            (Inr (), s\<lparr>world := w', out := out s @ [Switching p, profile_handler p e]\<rparr>))
    \<and> (\<forall>session w' e w''.
          Session sdk p (world s) = (Inr session, w') \<and>
          client session ''resourcegroupstaggingapi'' w' = (Inl e, w'') \<longrightarrow>
          process_aws_profile sdk p s =
            (Inr (), s\<lparr>world := w'', out := out s @ [Switching p, profile_handler p e]\<rparr>))
    \<and> profile_handler p ProfileNotFound = ProfileNotFoundLine p
    \<and> profile_handler p NoCredentialsError = NoCredentialsLine p
    \<and> profile_handler p (OtherError msg) = UnexpectedError p (OtherError msg)
    \<and> (rest \<noteq> [] \<longrightarrow>
          profiles_loop sdk (p # rest) s =
            profiles_loop sdk rest (snd (process_aws_profile sdk p s)))
    \<and> fst (profiles_loop sdk profiles s) = Inr ()
    \<and> switched_profiles (out (snd (profiles_loop sdk profiles s))) =
          switched_profiles (out s) @ profiles"
proof -
  have a: "\<forall>e w'. Session sdk p (world s) = (Inl e, w') \<longrightarrow>
          process_aws_profile sdk p s =
            (Inr (), s\<lparr>world := w', out := out s @ [Switching p, profile_handler p e]\<rparr>)"
    by (simp add: profile_session_raises)
  have b: "\<forall>session w' e w''.
          Session sdk p (world s) = (Inr session, w') \<and>
          client session ''resourcegroupstaggingapi'' w' = (Inl e, w'') \<longrightarrow>
          process_aws_profile sdk p s =
            (Inr (), s\<lparr>world := w'', out := out s @ [Switching p, profile_handler p e]\<rparr>)"
    by (simp add: profile_client_raises)
  have c: "profile_handler p ProfileNotFound = ProfileNotFoundLine p
    \<and> profile_handler p NoCredentialsError = NoCredentialsLine p
    \<and> profile_handler p (OtherError msg) = UnexpectedError p (OtherError msg)"
    by (simp add: profile_handler_def)
  have d: "rest \<noteq> [] \<longrightarrow>
          profiles_loop sdk (p # rest) s =
            profiles_loop sdk rest (snd (process_aws_profile sdk p s))"
    by (simp add: profiles_loop_Cons)
  from a b c d show ?thesis
    using profile_returns [of sdk p s] profiles_loop_returns [of sdk profiles s]
      profiles_loop_switched [of sdk profiles s]
    by blast
qed

text \<open>
  C7 on three profiles: one that does not exist, one without credentials, and a valid one
  that comes last and is still processed.
\<close>

theorem profile_failures_isolated_witness:
  "Session demo_sdk ''ghost'' (world (start faulty_account)) = (Inl ProfileNotFound, faulty_account)
   \<and> process_aws_profile demo_sdk ''ghost'' (start faulty_account) =
       (Inr (), (start faulty_account)
                  \<lparr>world := faulty_account,
                   out := out (start faulty_account) @
                            [Switching ''ghost'', ProfileNotFoundLine ''ghost'']\<rparr>)
   \<and> process_aws_profile demo_sdk ''audit'' (start faulty_account) =
       (Inr (), (start faulty_account)
                  \<lparr>world := faulty_account,
                   out := out (start faulty_account) @
                            [Switching ''audit'', NoCredentialsLine ''audit'']\<rparr>)
   \<and> [''default''] \<noteq> []
   \<and> profiles_loop demo_sdk [''audit'', ''default''] (start faulty_account) =
       profiles_loop demo_sdk [''default'']
         (snd (process_aws_profile demo_sdk ''audit'' (start faulty_account)))
   \<and> fst (profiles_loop demo_sdk [''ghost'', ''audit'', ''default''] (start faulty_account)) = Inr ()
   \<and> switched_profiles (out (snd (profiles_loop demo_sdk [''ghost'', ''audit'', ''default'']
         (start faulty_account)))) = [''ghost'', ''audit'', ''default'']"
proof -
  let ?s = "start faulty_account"
  let ?ps = "[''ghost'', ''audit'', ''default'']"
  note ghost = profile_failures_isolated [of demo_sdk "''ghost''" ?s "''timeout''" "[''default'']" ?ps]
  note audit = profile_failures_isolated [of demo_sdk "''audit''" ?s "''timeout''" "[''default'']" ?ps]
  from ghost ghost_session
  have 1: "process_aws_profile demo_sdk ''ghost'' ?s =
       (Inr (), ?s\<lparr>world := faulty_account,
                   out := out ?s @ [Switching ''ghost'', ProfileNotFoundLine ''ghost'']\<rparr>)"
    by simp
  from audit audit_session audit_client
  have 2: "process_aws_profile demo_sdk ''audit'' ?s =
       (Inr (), ?s\<lparr>world := faulty_account,
                   out := out ?s @ [Switching ''audit'', NoCredentialsLine ''audit'']\<rparr>)"
    by simp
  have 3: "[''default''] \<noteq> ([] :: string list)" by simp
  from audit 3
  have 4: "profiles_loop demo_sdk [''audit'', ''default''] ?s =
       profiles_loop demo_sdk [''default''] (snd (process_aws_profile demo_sdk ''audit'' ?s))"
    by blast
  from ghost have 5: "fst (profiles_loop demo_sdk ?ps ?s) = Inr ()"
    by blast
  from ghost have "switched_profiles (out (snd (profiles_loop demo_sdk ?ps ?s))) =
      switched_profiles (out ?s) @ ?ps"
    by blast
  then have 6: "switched_profiles (out (snd (profiles_loop demo_sdk ?ps ?s))) = ?ps"
    by (simp add: start_def switched_profiles_def)
  from ghost_session 1 2 3 4 5 6 show ?thesis by blast
qed

text \<open>
  C8. No exception leaves the main block (lines 85 to 89), whatever fails inside it. The
  whole program ends normally unless the enumeration of the profiles itself, which comes
  before the loop and outside every handler, raises.
\<close>

theorem run_completes:
  fixes sdk :: "'w sdk"
  shows "fst (profiles_loop sdk profiles s) = Inr ()
    \<and> fst (main sdk s) =
        (case fst (available_profiles sdk (world s)) of
           Inl e \<Rightarrow> Inl e
         | Inr profiles \<Rightarrow> Inr ())"
  using profiles_loop_returns [of sdk profiles s] main_outcome [of sdk s] by blast

text \<open>
  C8 on the account with a failing listing, a failing read, a failing write and a profile
  without credentials.
\<close>

theorem run_completes_witness:
  "fst (available_profiles demo_sdk (world (start faulty_account))) = Inr [''audit'', ''default'']
   \<and> fst (main demo_sdk (start faulty_account)) = Inr ()"
proof -
  have p: "fst (available_profiles demo_sdk (world (start faulty_account))) =
             Inr [''audit'', ''default'']"
    by (simp add: demo_sdk_def start_def faulty_account_def)
  from run_completes [of demo_sdk "[]" "start faulty_account"] p show ?thesis
    by simp
qed


section \<open>The listing and its service argument\<close>

text \<open>
  \<open>get_resources_with_tags\<close> uses \<open>service_name\<close> in the line it prints for a failure and
  nowhere else: the request it sends, the world it leaves and the list it returns are the
  same for any two service names.
\<close>

lemma listing_same_for_all_services:
  "fst (get_resources_with_tags cl service_a s) = fst (get_resources_with_tags cl service_b s)
   \<and> world (snd (get_resources_with_tags cl service_a s)) =
       world (snd (get_resources_with_tags cl service_b s))
   \<and> calls (snd (get_resources_with_tags cl service_a s)) = calls s @ [Paginate 50]
   \<and> calls (snd (get_resources_with_tags cl service_b s)) = calls s @ [Paginate 50]"
proof (cases rule: listing_cases [of cl s service_a])
  case (listed pages w')
  from listing_ok [OF listed(1), of service_b] listed(2) show ?thesis by simp
next
  case (failed pages e w')
  from listing_raises [OF failed(1), of service_b] failed(2) show ?thesis by simp
qed

text \<open>
  C4 does not hold of the code. On an account with one S3 bucket and one EC2 server, the
  listing for \<^verbatim>\<open>ec2\<close> and the listing for \<^verbatim>\<open>s3\<close> send the same request and both return
  both resources.
\<close>

theorem listing_ignores_service:
  "fst (get_resources_with_tags demo_client ''ec2''
          (start (account [(logs_bucket, []), (web_server, [])]))) =
     Inr [describe (logs_bucket, []), describe (web_server, [])]
   \<and> fst (get_resources_with_tags demo_client ''s3''
          (start (account [(logs_bucket, []), (web_server, [])]))) =
     Inr [describe (logs_bucket, []), describe (web_server, [])]
   \<and> calls (snd (get_resources_with_tags demo_client ''ec2''
          (start (account [(logs_bucket, []), (web_server, [])])))) = [Paginate 50]
   \<and> calls (snd (get_resources_with_tags demo_client ''s3''
          (start (account [(logs_bucket, []), (web_server, [])])))) = [Paginate 50]"
proof -
  let ?s = "start (account [(logs_bucket, []), (web_server, [])])"
  have "paginate demo_client 50 (world ?s) =
          (([\<lparr>ResourceTagMappingList =
                Some [describe (logs_bucket, []), describe (web_server, [])]\<rparr>], None),
           account [(logs_bucket, []), (web_server, [])])"
    by (simp add: demo_client_def start_def account_def)
  from listing_ok [OF this, of "''ec2''"] listing_ok [OF this, of "''s3''"] show ?thesis
    by (simp add: page_items_def) (simp add: start_def)
qed


end
